theory Spec2Isabelle
  imports Main "HOL-Library.Word"
begin

unbundle bit_operations_syntax

section \<open>Environment of \<open>IOUtil.hpp\<close>\<close>

text \<open>
  The two functions of \<open>src/io/IOUtil.hpp\<close> talk to the operating system through
  \<open>stat\<close>, \<open>opendir\<close>/\<open>readdir\<close> and \<open>_mkdir\<close>. The enumeration only reads the
  file system, so it sees it as two lookup functions: \<open>stat\<close> gives the \<open>st_mode\<close> word of
  a path (\<open>None\<close> when the call returns non-zero), \<open>opendir\<close> gives the entry names
  that successive \<open>readdir\<close> calls deliver, in their order (\<open>None\<close> when \<open>opendir\<close>
  returns the null pointer).
\<close>

record filesystem =
  stat :: "string \<Rightarrow> 32 word option"
  opendir :: "string \<Rightarrow> string list option"

text \<open>The file-type bits of \<open>sys/stat.h\<close> that the code tests with \<open>&\<close>.\<close>

definition S_IFREG :: "32 word" where
  "S_IFREG = 0x8000"

definition S_IFDIR :: "32 word" where
  "S_IFDIR = 0x4000"

text \<open>
  \<open>std::string::operator[]\<close> on a non-const string: the character at \<open>pos\<close> when
  \<open>pos < size()\<close>, the terminating null character when \<open>pos = size()\<close>, undefined
  behaviour beyond (\<open>None\<close>).
\<close>

definition char_at :: "string \<Rightarrow> nat \<Rightarrow> char option" where
  "char_at s pos =
     (if pos < length s then Some (s ! pos)
      else if pos = length s then Some (CHR 0x00)
      else None)"

text \<open>
  \<open>size() - k\<close> in \<open>size_t\<close> arithmetic (64 bits), for a size \<open>n\<close> that a string can have
  (below \<open>2 ^ 64\<close>) and a small constant \<open>k\<close>: the difference wraps around when \<open>k\<close>
  exceeds \<open>n\<close>.
\<close>

definition size_minus :: "nat \<Rightarrow> nat \<Rightarrow> nat" where
  "size_minus n k = (if k \<le> n then n - k else 2 ^ 64 + n - k)"

text \<open>\<open>s.substr(0, n)\<close>: the first \<open>n\<close> characters, fewer when \<open>s\<close> is shorter.\<close>

definition substr0 :: "string \<Rightarrow> nat \<Rightarrow> string" where
  "substr0 s n = take n s"

section \<open>\<open>createFileList\<close>\<close>

datatype error_code = ERR_OPEN_FILE | ERR_READ_FILE

text \<open>
  How a call ends: it returns, it throws an \<open>IOException\<close> (message and code), it
  indexes a string out of range, or the recursion budget of the model is used up.
\<close>

datatype outcome =
    Returned
  | IOException string error_code
  | OutOfBounds
  | OutOfFuel

text \<open>The quote character of the messages.\<close>

definition quote :: string where
  "quote = [CHR 0x27]"

text \<open>
  Lines 62-63: the recursion mode, read off the target string alone. The \<open>||\<close> of the
  code reads the last two characters only when the size exceeds \<open>2\<close>, where both indexes
  are in range.
\<close>

definition isRecursive :: "char \<Rightarrow> string \<Rightarrow> bool" where
  "isRecursive sep target =
     (length target \<le> 2 \<or> target ! (length target - 1) \<noteq> CHR ''.'' \<or>
      target ! (length target - 2) \<noteq> sep)"

text \<open>\<open>ent->d_name[0] != '.'\<close> on the null-terminated entry name.\<close>

definition d_name_visible :: "string \<Rightarrow> bool" where
  "d_name_visible d_name = (case d_name of [] \<Rightarrow> True | c # _ \<Rightarrow> c \<noteq> CHR ''.'')"

text \<open>
  \<open>createFileList sep fs fuel target files\<close> is the call \<open>createFileList(target, files)\<close>
  with \<open>PATH_SEPARATOR = sep\<close> (the constant is declared in \<open>types.hpp\<close>). The result
  is the outcome, the caller's \<open>target\<close> string after the call (it is passed by
  reference and assigned to) and the \<open>files\<close> vector after the call. \<open>fuel\<close> bounds the
  depth of the recursion into subdirectories. \<open>scanEntries\<close> is the \<open>readdir\<close> loop of
  lines 79-97 over the entries still to be read.
\<close>

fun createFileList ::
    "char \<Rightarrow> filesystem \<Rightarrow> nat \<Rightarrow> string \<Rightarrow> string list \<Rightarrow> outcome \<times> string \<times> string list"
  and scanEntries ::
    "char \<Rightarrow> filesystem \<Rightarrow> nat \<Rightarrow> bool \<Rightarrow> string \<Rightarrow> string list \<Rightarrow> string list \<Rightarrow>
       outcome \<times> string list"
where
  "createFileList sep fs 0 target files = (OutOfFuel, target, files)"
| "createFileList sep fs (Suc fuel) target files =
     (case char_at target (size_minus (length target) 1) of
        None \<Rightarrow> (OutOfBounds, target, files)
      | Some c \<Rightarrow>
          let target1 = (if c = sep then substr0 target (size_minus (length target) 1) else target) in
          (case stat fs target1 of
             None \<Rightarrow>
               (IOException (''Cannot access input file '' @ quote @ target1 @ quote) ERR_OPEN_FILE,
                target1, files)
           | Some st_mode \<Rightarrow>
               if st_mode AND S_IFREG \<noteq> 0 then
                 (case char_at target1 0 of
                    None \<Rightarrow> (OutOfBounds, target1, files)
                  | Some c0 \<Rightarrow>
                      (Returned, target1, if c0 \<noteq> CHR ''.'' then files @ [target1] else files))
               else if st_mode AND S_IFDIR = 0 then
                 (IOException (''Invalid file type '' @ quote @ target1 @ quote) ERR_OPEN_FILE,
                  target1, files)
               else
                 let isRec = isRecursive sep target1;
                     target2 =
                       (if isRec then
                          (case char_at target1 (size_minus (length target1) 1) of
                             None \<Rightarrow> None
                           | Some c1 \<Rightarrow> Some (if c1 \<noteq> sep then target1 @ [sep] else target1))
                        else Some (substr0 target1 (size_minus (length target1) 1)))
                 in
                 (case target2 of
                    None \<Rightarrow> (OutOfBounds, target1, files)
                  | Some dirpath \<Rightarrow>
                      (case opendir fs dirpath of
                         None \<Rightarrow>
                           (IOException (''Cannot read directory '' @ quote @ dirpath @ quote)
                              ERR_READ_FILE, dirpath, files)
                       | Some entries \<Rightarrow>
                           (case scanEntries sep fs fuel isRec dirpath entries files of
                              (oc, files') \<Rightarrow> (oc, dirpath, files'))))))"
| "scanEntries sep fs fuel isRec target [] files = (Returned, files)"
| "scanEntries sep fs fuel isRec target (d_name # rest) files =
     (let fullpath = target @ d_name in
      case stat fs fullpath of
        None \<Rightarrow>
          (IOException (''Cannot access input file '' @ quote @ target @ d_name @ quote)
             ERR_OPEN_FILE, files)
      | Some st_mode \<Rightarrow>
          if d_name_visible d_name then
            if st_mode AND S_IFREG \<noteq> 0 then
              scanEntries sep fs fuel isRec target rest (files @ [fullpath])
            else if isRec \<and> st_mode AND S_IFDIR \<noteq> 0 then
              (case createFileList sep fs fuel fullpath files of
                 (Returned, _, files') \<Rightarrow> scanEntries sep fs fuel isRec target rest files'
               | (oc, _, files') \<Rightarrow> (oc, files'))
            else scanEntries sep fs fuel isRec target rest files
          else scanEntries sep fs fuel isRec target rest files)"

text \<open>
  Lines 38-39 on a non-empty target: one trailing separator is dropped. The strings that
  the statements below talk about are written with it.
\<close>

definition strip_sep :: "char \<Rightarrow> string \<Rightarrow> string" where
  "strip_sep sep target = (if last target = sep then butlast target else target)"

text \<open>
  The notions that the statements use. A regular file and a directory are what
  \<open>sys/stat.h\<close> calls so (\<open>S_ISREG\<close>, \<open>S_ISDIR\<close>): the file-type field of \<open>st_mode\<close>,
  masked with \<open>S_IFMT\<close>, is \<open>S_IFREG\<close> or \<open>S_IFDIR\<close>. A hidden name begins with a
  dot.
\<close>

definition S_IFMT :: "32 word" where
  "S_IFMT = 0xF000"

definition is_regular_file :: "filesystem \<Rightarrow> string \<Rightarrow> bool" where
  "is_regular_file fs p =
     (case stat fs p of None \<Rightarrow> False | Some st_mode \<Rightarrow> st_mode AND S_IFMT = S_IFREG)"

definition hidden_name :: "string \<Rightarrow> bool" where
  "hidden_name name = (name \<noteq> [] \<and> hd name = CHR ''.'')"

text \<open>
  What line 90 tests on an entry: \<open>stat\<close> has succeeded and the \<open>S_IFREG\<close> bit of the
  mode is set. The bit is set in the mode of a regular file, and in that of a socket
  (\<open>S_IFSOCK\<close> is \<open>0xC000\<close>).
\<close>

definition S_IFREG_bit_set :: "filesystem \<Rightarrow> string \<Rightarrow> bool" where
  "S_IFREG_bit_set fs p =
     (case stat fs p of None \<Rightarrow> False | Some st_mode \<Rightarrow> st_mode AND S_IFREG \<noteq> 0)"

subsection \<open>Example file systems\<close>

text \<open>
  A file system given by two tables: the \<open>st_mode\<close> of every path on which \<open>stat\<close>
  succeeds, and the entries of every path that \<open>opendir\<close> opens. The modes are
  \<open>0x41ED\<close> (a directory, permissions 755) and \<open>0x81A4\<close> (a regular file, permissions 644).
\<close>

definition table_fs :: "(string \<times> 32 word) list \<Rightarrow> (string \<times> string list) list \<Rightarrow> filesystem" where
  "table_fs modes listings = \<lparr>stat = map_of modes, opendir = map_of listings\<rparr>"

text \<open>
  The tree of the scenarios in the specification: a directory \<open>src\<close> with the files
  \<open>a.txt\<close> and \<open>b.txt\<close> and a subdirectory \<open>sub\<close> that holds \<open>c.txt\<close>.
\<close>

definition src_tree :: filesystem where
  "src_tree = table_fs
     [(''src'', 0x41ED), (''src/'', 0x41ED), (''src/.'', 0x41ED), (''src/..'', 0x41ED),
      (''src/a.txt'', 0x81A4), (''src/b.txt'', 0x81A4), (''src/sub'', 0x41ED),
      (''src/sub/.'', 0x41ED), (''src/sub/..'', 0x41ED), (''src/sub/c.txt'', 0x81A4)]
     [(''src/'', [''.'', ''..'', ''a.txt'', ''b.txt'', ''sub'']),
      (''src/sub/'', [''.'', ''..'', ''c.txt''])]"

text \<open>
  A working directory with a directory \<open>foo\<close> that holds \<open>x.txt\<close> and a subdirectory
  \<open>bar\<close> with \<open>y.txt\<close>, reached as \<open>.\<close> and as \<open>foo/.\<close>.
\<close>

definition cwd_tree :: filesystem where
  "cwd_tree = table_fs
     [(''.'', 0x41ED), (''./.'', 0x41ED), (''./..'', 0x41ED), (''./foo'', 0x41ED),
      (''./foo/.'', 0x41ED), (''./foo/..'', 0x41ED), (''./foo/x.txt'', 0x81A4),
      (''./foo/bar'', 0x41ED), (''./foo/bar/.'', 0x41ED), (''./foo/bar/..'', 0x41ED),
      (''./foo/bar/y.txt'', 0x81A4),
      (''foo/.'', 0x41ED), (''foo/..'', 0x41ED), (''foo/x.txt'', 0x81A4), (''foo/bar'', 0x41ED)]
     [(''./'', [''.'', ''..'', ''foo'']),
      (''./foo/'', [''.'', ''..'', ''x.txt'', ''bar'']),
      (''./foo/bar/'', [''.'', ''..'', ''y.txt'']),
      (''foo/'', [''.'', ''..'', ''x.txt'', ''bar''])]"

text \<open>
  A directory \<open>d\<close> whose hidden entry \<open>.gone\<close> is a dangling symbolic link: \<open>readdir\<close>
  delivers it, \<open>stat\<close> fails on it.
\<close>

definition broken_link_tree :: filesystem where
  "broken_link_tree = table_fs
     [(''d'', 0x41ED), (''d/.'', 0x41ED), (''d/..'', 0x41ED),
      (''d/a.txt'', 0x81A4), (''d/b.txt'', 0x81A4)]
     [(''d/'', [''.'', ''..'', ''a.txt'', ''.gone'', ''b.txt''])]"

text \<open>
  A directory \<open>h\<close> with a hidden regular file, a visible one and a subdirectory that
  holds a file.
\<close>

definition hidden_tree :: filesystem where
  "hidden_tree = table_fs
     [(''h'', 0x41ED), (''h/.'', 0x41ED), (''h/..'', 0x41ED),
      (''h/.secret'', 0x81A4), (''h/v.txt'', 0x81A4), (''h/sub'', 0x41ED),
      (''h/sub/.'', 0x41ED), (''h/sub/..'', 0x41ED), (''h/sub/w.txt'', 0x81A4)]
     [(''h/'', [''.'', ''..'', ''.secret'', ''v.txt'', ''sub'']),
      (''h/sub/'', [''.'', ''..'', ''w.txt''])]"

text \<open>
  A directory \<open>mix\<close> with a regular file and a socket (mode \<open>0xC1ED\<close>: the type
  field is \<open>S_IFSOCK\<close>).
\<close>

definition socket_tree :: filesystem where
  "socket_tree = table_fs
     [(''mix'', 0x41ED), (''mix/.'', 0x41ED), (''mix/..'', 0x41ED),
      (''mix/reg.txt'', 0x81A4), (''mix/sock'', 0xC1ED)]
     [(''mix/'', [''.'', ''..'', ''reg.txt'', ''sock''])]"

text \<open>
  Two regular files named with a directory part: \<open>a.txt\<close> in the working directory,
  given as \<open>./a.txt\<close>, and the hidden file \<open>.hidden\<close> in \<open>src\<close>.
\<close>

definition dotted_paths :: filesystem where
  "dotted_paths = table_fs
     [(''.'', 0x41ED), (''./a.txt'', 0x81A4), (''src'', 0x41ED), (''src/.hidden'', 0x81A4)]
     []"

section \<open>\<open>mkdirAll\<close>\<close>

text \<open>
  \<open>_mkdir\<close> changes the file system, so it is a function from the state before the call
  and the path to the result and the state after it: \<open>None\<close> when the call returns
  \<open>0\<close>, \<open>Some e\<close> when it returns non-zero and sets \<open>errno\<close> to \<open>e\<close>. The functions
  below take it as the parameter \<open>mkdir\<close>; the type \<open>'fs\<close> of the states is left open.
\<close>

text \<open>The two \<open>errno\<close> values that are named below, as \<open>errno.h\<close> numbers them.\<close>

definition EEXIST :: int where
  "EEXIST = 17"

definition ENOENT :: int where
  "ENOENT = 2"

text \<open>
  The \<open>for\<close> loop of lines 112-121 from the counter value \<open>i\<close> on. The counter is a
  \<open>uint\<close>, a 32-bit word: \<open>i++\<close> wraps around, and the test \<open>i < path.size()\<close> compares its
  value with the 64-bit size. The loop need not end (a path of \<open>2 ^ 32\<close> characters or
  more with no failing call keeps it running), hence the result is an option. A result
  \<open>(Some r, errno, fs)\<close> says that the function returned \<open>r\<close> from inside the loop,
  \<open>(None, errno, fs)\<close> that the loop ran to its end.
\<close>

partial_function (option) mkdirAll_loop ::
  "char \<Rightarrow> ('fs \<Rightarrow> string \<Rightarrow> int option \<times> 'fs) \<Rightarrow> string \<Rightarrow> 32 word \<Rightarrow> int \<Rightarrow> 'fs \<Rightarrow>
     (int option \<times> int \<times> 'fs) option"
where
  "mkdirAll_loop sep mkdir path i errno fs =
     (if unat i < length path then
        (if path ! unat i = sep then
           (let curPath = substr0 path (unat i) in
            case mkdir fs curPath of
              (Some e, fs') \<Rightarrow>
                if e \<noteq> EEXIST then Some (Some (- 1), e, fs')
                else mkdirAll_loop sep mkdir path (i + 1) e fs'
            | (None, fs') \<Rightarrow> mkdirAll_loop sep mkdir path (i + 1) errno fs')
         else mkdirAll_loop sep mkdir path (i + 1) errno fs)
      else Some (None, errno, fs))"

text \<open>
  \<open>mkdirAll sep mkdir path fs\<close> is the call \<open>mkdirAll(path)\<close> in the state \<open>fs\<close>: it sets
  \<open>errno\<close> to \<open>0\<close>, runs the loop and then creates the full path (lines 123-128). The
  result is the returned value, \<open>errno\<close> and the state after the call.
\<close>

definition mkdirAll ::
  "char \<Rightarrow> ('fs \<Rightarrow> string \<Rightarrow> int option \<times> 'fs) \<Rightarrow> string \<Rightarrow> 'fs \<Rightarrow> (int \<times> int \<times> 'fs) option"
where
  "mkdirAll sep mkdir path fs =
     (case mkdirAll_loop sep mkdir path 0 0 fs of
        None \<Rightarrow> None
      | Some (Some r, errno, fs') \<Rightarrow> Some (r, errno, fs')
      | Some (None, errno, fs') \<Rightarrow>
          (case mkdir fs' path of
             (Some e, fs'') \<Rightarrow> if e \<noteq> EEXIST then Some (- 1, e, fs'') else Some (0, e, fs'')
           | (None, fs'') \<Rightarrow> Some (0, errno, fs'')))"

subsection \<open>The sequence of creation calls\<close>

text \<open>
  The prefixes of \<open>path\<close> that end just before a separator found at an index from \<open>k\<close>
  on, in increasing length, and the calls of a whole run: those prefixes from index \<open>0\<close>,
  then the path itself.
\<close>

definition sep_prefixes :: "char \<Rightarrow> string \<Rightarrow> nat \<Rightarrow> string list" where
  "sep_prefixes sep path k = map (\<lambda>i. take i path) (filter (\<lambda>i. path ! i = sep) [k..<length path])"

definition creation_calls :: "char \<Rightarrow> string \<Rightarrow> string list" where
  "creation_calls sep path = sep_prefixes sep path 0 @ [path]"

text \<open>
  Creating a list of paths in turn with the policy of lines 116-119: an \<open>EEXIST\<close> failure
  is passed over, any other failure ends the run with \<open>-1\<close>.
\<close>

fun try_all ::
  "('fs \<Rightarrow> string \<Rightarrow> int option \<times> 'fs) \<Rightarrow> string list \<Rightarrow> int \<Rightarrow> 'fs \<Rightarrow> int option \<times> int \<times> 'fs"
where
  "try_all mkdir [] errno fs = (None, errno, fs)"
| "try_all mkdir (p # ps) errno fs =
     (case mkdir fs p of
        (Some e, fs') \<Rightarrow> if e \<noteq> EEXIST then (Some (- 1), e, fs') else try_all mkdir ps e fs'
      | (None, fs') \<Rightarrow> try_all mkdir ps errno fs')"

text \<open>
  The state in which the call number \<open>k\<close> of a sequence is made when every earlier call
  has been made, and the calls that fail with an error other than \<open>EEXIST\<close>.
\<close>

definition state_before ::
  "('fs \<Rightarrow> string \<Rightarrow> int option \<times> 'fs) \<Rightarrow> 'fs \<Rightarrow> string list \<Rightarrow> nat \<Rightarrow> 'fs" where
  "state_before mkdir fs ps k = foldl (\<lambda>s p. snd (mkdir s p)) fs (take k ps)"

definition hard_failure :: "('fs \<Rightarrow> string \<Rightarrow> int option \<times> 'fs) \<Rightarrow> 'fs \<Rightarrow> string \<Rightarrow> bool" where
  "hard_failure mkdir fs p = (case fst (mkdir fs p) of None \<Rightarrow> False | Some e \<Rightarrow> e \<noteq> EEXIST)"

subsection \<open>A directory tree with the \<open>mkdir\<close> of POSIX\<close>

text \<open>
  For concrete runs: the state is the list of the directories that exist besides the
  root, each as its list of names from the root; every directory is writable, and the
  working directory is the root. A path is split at the separators, empty names
  (repeated and trailing separators) are dropped, and the names before the last are
  walked from the root: \<open>.\<close> stays, \<open>..\<close> goes up (the root is its own parent), any
  other name must be a directory that exists.
\<close>

fun split_on :: "char \<Rightarrow> string \<Rightarrow> string list" where
  "split_on sep [] = [[]]"
| "split_on sep (c # cs) =
     (if c = sep then [] # split_on sep cs
      else (case split_on sep cs of [] \<Rightarrow> [[c]] | w # ws \<Rightarrow> (c # w) # ws))"

fun resolve :: "string list list \<Rightarrow> string list \<Rightarrow> string list \<Rightarrow> string list option" where
  "resolve dirs cur [] = Some cur"
| "resolve dirs cur (name # names) =
     (if name = ''.'' then resolve dirs cur names
      else if name = ''..'' then resolve dirs (butlast cur) names
      else if cur @ [name] \<in> set dirs then resolve dirs (cur @ [name]) names
      else None)"

text \<open>
  \<open>mkdir\<close> fails with \<open>ENOENT\<close> on the empty path and when a directory on the way is
  missing, and with \<open>EEXIST\<close> when the path names the root, ends in \<open>.\<close> or \<open>..\<close>, or
  names a directory that is there; otherwise it creates the directory.
\<close>

definition posix_mkdir :: "char \<Rightarrow> string list list \<Rightarrow> string \<Rightarrow> int option \<times> string list list" where
  "posix_mkdir sep dirs p =
     (if p = [] then (Some ENOENT, dirs)
      else
        let names = filter (\<lambda>w. w \<noteq> []) (split_on sep p) in
        if names = [] then (Some EEXIST, dirs)
        else
          (case resolve dirs [] (butlast names) of
             None \<Rightarrow> (Some ENOENT, dirs)
           | Some parent \<Rightarrow>
               if last names = ''.'' \<or> last names = ''..'' \<or> parent @ [last names] \<in> set dirs
               then (Some EEXIST, dirs)
               else (None, dirs @ [parent @ [last names]])))"

section \<open>Properties of \<open>createFileList\<close>\<close>

subsection \<open>The string accesses\<close>

lemma char_at_last: "s \<noteq> [] \<Longrightarrow> char_at s (size_minus (length s) 1) = Some (last s)"
  by (cases s rule: rev_cases) (simp_all add: char_at_def size_minus_def)

lemma substr0_butlast: "s \<noteq> [] \<Longrightarrow> substr0 s (size_minus (length s) 1) = butlast s"
  by (simp add: substr0_def size_minus_def butlast_conv_take Suc_le_eq)

lemma char_at_0: "char_at s 0 = Some (if s = [] then CHR 0x00 else hd s)"
  by (cases s) (simp_all add: char_at_def)

lemma mode_bits:
  "(0x41ED :: 32 word) AND S_IFREG = 0"
  "(0x41ED :: 32 word) AND S_IFDIR \<noteq> 0"
  "(0x81A4 :: 32 word) AND S_IFREG \<noteq> 0"
  by (simp_all add: S_IFREG_def S_IFDIR_def)

subsection \<open>The branches of a call\<close>

text \<open>A target on which \<open>stat\<close> sets the \<open>S_IFREG\<close> bit: lines 47-53.\<close>

lemma createFileList_regular:
  assumes "target \<noteq> []"
    and "stat fs (strip_sep sep target) = Some m" and "m AND S_IFREG \<noteq> 0"
  shows "createFileList sep fs (Suc n) target files =
           (Returned, strip_sep sep target,
            if strip_sep sep target = [] \<or> hd (strip_sep sep target) \<noteq> CHR ''.''
            then files @ [strip_sep sep target] else files)"
  unfolding createFileList.simps char_at_last [OF assms(1)] substr0_butlast [OF assms(1)]
    option.case strip_sep_def [symmetric] Let_def assms(2)
  using assms(3) by (simp add: char_at_0)

text \<open>A directory target: lines 62-105, with the path that is opened.\<close>

lemma createFileList_directory:
  assumes "target \<noteq> []"
    and "strip_sep sep target \<noteq> []"
    and "stat fs (strip_sep sep target) = Some m" and "m AND S_IFREG = 0" and "m AND S_IFDIR \<noteq> 0"
    and "dirpath = (if isRecursive sep (strip_sep sep target)
                    then (if last (strip_sep sep target) \<noteq> sep then strip_sep sep target @ [sep]
                          else strip_sep sep target)
                    else butlast (strip_sep sep target))"
  shows "createFileList sep fs (Suc n) target files =
           (case opendir fs dirpath of
              None \<Rightarrow>
                (IOException (''Cannot read directory '' @ quote @ dirpath @ quote) ERR_READ_FILE,
                 dirpath, files)
            | Some entries \<Rightarrow>
                (case scanEntries sep fs n (isRecursive sep (strip_sep sep target)) dirpath
                        entries files of
                   (oc, files') \<Rightarrow> (oc, dirpath, files')))"
  unfolding createFileList.simps char_at_last [OF assms(1)] substr0_butlast [OF assms(1)]
    option.case strip_sep_def [symmetric] Let_def char_at_last [OF assms(2)]
    substr0_butlast [OF assms(2)] assms(3) assms(6)
  using assms(4,5) by simp

subsection \<open>The loop over the entries\<close>

text \<open>Entries that were read without an exception can be split off the front.\<close>

lemma scanEntries_append:
  "scanEntries sep fs n isRec dir es1 files = (Returned, files1) \<Longrightarrow>
   scanEntries sep fs n isRec dir (es1 @ es2) files = scanEntries sep fs n isRec dir es2 files1"
proof (induction es1 arbitrary: files)
  case Nil
  then show ?case by simp
next
  case (Cons e es1)
  show ?case
  proof (cases "stat fs (dir @ e)")
    case None
    with Cons.prems show ?thesis by simp
  next
    case (Some m)
    show ?thesis
    proof (cases "d_name_visible e \<and> m AND S_IFREG = 0 \<and> isRec \<and> m AND S_IFDIR \<noteq> 0")
      case False
      with Some Cons.prems Cons.IH show ?thesis
        by (auto simp: Let_def split: if_splits)
    next
      case True
      obtain oc t fl where r: "createFileList sep fs n (dir @ e) files = (oc, t, fl)"
        by (cases "createFileList sep fs n (dir @ e) files")
      with True Some Cons.prems have "oc = Returned"
        by (cases oc) (simp_all add: Let_def)
      with r True Some Cons.prems Cons.IH show ?thesis
        by (simp add: Let_def)
    qed
  qed
qed

text \<open>In non-recursive mode the loop is a filter over the entries, with the tests of the code.\<close>

lemma scanEntries_nonrecursive:
  "\<forall>e \<in> set entries. stat fs (dir @ e) \<noteq> None \<Longrightarrow>
   scanEntries sep fs n False dir entries files =
     (Returned, files @ map (\<lambda>e. dir @ e)
        (filter (\<lambda>e. d_name_visible e \<and> S_IFREG_bit_set fs (dir @ e)) entries))"
proof (induction entries arbitrary: files)
  case Nil
  then show ?case by simp
next
  case (Cons e entries)
  then obtain m where m: "stat fs (dir @ e) = Some m" by auto
  from Cons.prems have rest: "\<forall>e \<in> set entries. stat fs (dir @ e) \<noteq> None" by simp
  show ?case
    using m Cons.IH [OF rest] by (simp add: Let_def S_IFREG_bit_set_def)
qed

text \<open>The tests of the code against the file-type field and the first character.\<close>

lemma type_field_bit:
  fixes m :: "32 word"
  shows "m AND S_IFREG = (m AND S_IFMT) AND S_IFREG"
    and "m AND S_IFDIR = (m AND S_IFMT) AND S_IFDIR"
proof -
  have "S_IFMT AND S_IFREG = S_IFREG" "S_IFMT AND S_IFDIR = S_IFDIR"
    by (simp_all add: S_IFMT_def S_IFREG_def S_IFDIR_def)
  then show "m AND S_IFREG = (m AND S_IFMT) AND S_IFREG"
    and "m AND S_IFDIR = (m AND S_IFMT) AND S_IFDIR"
    by (simp_all add: and.assoc)
qed

lemma regular_mode: "m AND S_IFMT = S_IFREG \<Longrightarrow> m AND S_IFREG \<noteq> 0"
  by (subst type_field_bit) (simp add: S_IFREG_def)

lemma directory_mode:
  "m AND S_IFMT = S_IFDIR \<Longrightarrow> m AND S_IFREG = 0 \<and> m AND S_IFDIR \<noteq> 0"
proof -
  assume a: "m AND S_IFMT = S_IFDIR"
  have "m AND S_IFREG = S_IFDIR AND S_IFREG" "m AND S_IFDIR = S_IFDIR AND S_IFDIR"
    using type_field_bit [of m] a by simp_all
  then show ?thesis
    by (simp add: S_IFREG_def S_IFDIR_def)
qed

lemma d_name_visible_hidden: "d_name_visible name = (\<not> hidden_name name)"
  by (cases name) (simp_all add: d_name_visible_def hidden_name_def)

subsection \<open>Regular-file targets\<close>

text \<open>
  Claim C1. For a target that \<open>stat\<close> reports as a regular file, the path is appended if
  and only if its basename does not begin with a dot. The code tests the first character
  of the whole target string (line 49), while the loop over a directory tests the entry
  name (line 88). The two runs below show both ways in which the test of line 49 departs
  from the basename: \<open>./a.txt\<close>, whose basename \<open>a.txt\<close> is not hidden, is not appended,
  and \<open>src/.hidden\<close>, whose basename is hidden, is appended. In both the call returns
  after the test and enumerates nothing.
\<close>

theorem createFileList_first_character_test:
  "createFileList (CHR ''/'') dotted_paths (Suc 0) ''./a.txt'' [] = (Returned, ''./a.txt'', []) \<and>
   createFileList (CHR ''/'') dotted_paths (Suc 0) ''src/.hidden'' [] =
     (Returned, ''src/.hidden'', [''src/.hidden''])"
  by (simp add: dotted_paths_def table_fs_def char_at_def size_minus_def substr0_def Let_def
      S_IFREG_def)

subsection \<open>The recursion mode\<close>

text \<open>
  Claim C2. Let \<open>t\<close> be a directory target after the separator at its end, if any, has
  been stripped. The call treats \<open>t\<close> as non-recursive if and only if \<open>t\<close> has at least
  three characters, ends in a dot and has the separator before it: then it opens \<open>t\<close>
  without the dot and runs the loop with the recursion flag off; otherwise it opens \<open>t\<close>
  with a separator at its end and runs the loop with the flag on. The instances (in the
  theorem after this one) are \<open>.\<close>, which is read recursively, and \<open>foo/.\<close>, which is
  not.
\<close>

theorem createFileList_recursion_mode:
  assumes "target \<noteq> []" and "strip_sep sep target \<noteq> []"
    and "stat fs (strip_sep sep target) = Some m" and "m AND S_IFREG = 0" and "m AND S_IFDIR \<noteq> 0"
  shows "createFileList sep fs (Suc n) target files =
     (let t = strip_sep sep target;
          non_recursive = (3 \<le> length t \<and> last t = CHR ''.'' \<and> t ! (length t - 2) = sep);
          dirpath = (if non_recursive then butlast t else if last t \<noteq> sep then t @ [sep] else t)
      in case opendir fs dirpath of
           None \<Rightarrow>
             (IOException (''Cannot read directory '' @ quote @ dirpath @ quote) ERR_READ_FILE,
              dirpath, files)
         | Some entries \<Rightarrow>
             (case scanEntries sep fs n (\<not> non_recursive) dirpath entries files of
                (oc, files') \<Rightarrow> (oc, dirpath, files')))"
proof -
  let ?t = "strip_sep sep target"
  have mode: "isRecursive sep ?t =
      (\<not> (3 \<le> length ?t \<and> last ?t = CHR ''.'' \<and> ?t ! (length ?t - 2) = sep))"
    using assms(2) by (auto simp: isRecursive_def last_conv_nth)
  show ?thesis
  proof (cases "isRecursive sep ?t")
    case True
    then have r: "isRecursive sep ?t = True" by simp
    then have n: "(3 \<le> length ?t \<and> last ?t = CHR ''.'' \<and> ?t ! (length ?t - 2) = sep) = False"
      using mode by simp
    show ?thesis
      unfolding createFileList_directory [OF assms refl] Let_def n r if_True if_False
        not_False_eq_True ..
  next
    case False
    then have r: "isRecursive sep ?t = False" by simp
    then have n: "(3 \<le> length ?t \<and> last ?t = CHR ''.'' \<and> ?t ! (length ?t - 2) = sep) = True"
      using mode by simp
    show ?thesis
      unfolding createFileList_directory [OF assms refl] Let_def n r if_True if_False
        not_True_eq_False ..
  qed
qed

text \<open>
  In \<open>cwd_tree\<close> the target \<open>.\<close> is read recursively (the file in \<open>foo/bar\<close> is
  found), the target \<open>foo/.\<close> is not (only the file directly in \<open>foo\<close> is found).
\<close>

theorem createFileList_recursion_mode_witness:
  "createFileList (CHR ''/'') cwd_tree (Suc (Suc (Suc 0))) ''.'' [] =
     (Returned, ''./'', [''./foo/x.txt'', ''./foo/bar/y.txt'']) \<and>
   createFileList (CHR ''/'') cwd_tree (Suc (Suc (Suc 0))) ''foo/.'' [] =
     (Returned, ''foo/'', [''foo/x.txt''])"
proof -
  have bits: "(0x41ED :: 32 word) AND S_IFREG = 0" "(0x41ED :: 32 word) AND S_IFDIR \<noteq> 0"
    by (simp_all add: mode_bits)
  have s: "strip_sep (CHR ''/'') ''.'' = ''.''" "strip_sep (CHR ''/'') ''foo/.'' = ''foo/.''"
    by (simp_all add: strip_sep_def)
  have st: "stat cwd_tree ''.'' = Some 0x41ED" "stat cwd_tree ''foo/.'' = Some 0x41ED"
    by (simp_all add: cwd_tree_def table_fs_def)
  have od: "opendir cwd_tree ''./'' = Some [''.'', ''..'', ''foo'']"
    "opendir cwd_tree ''foo/'' = Some [''.'', ''..'', ''x.txt'', ''bar'']"
    by (simp_all add: cwd_tree_def table_fs_def)
  have sc1: "scanEntries (CHR ''/'') cwd_tree (Suc (Suc 0)) True ''./'' [''.'', ''..'', ''foo''] [] =
      (Returned, [''./foo/x.txt'', ''./foo/bar/y.txt''])"
    by (simp add: cwd_tree_def table_fs_def char_at_def size_minus_def substr0_def Let_def
        isRecursive_def d_name_visible_def S_IFREG_def S_IFDIR_def)
  have sc2: "scanEntries (CHR ''/'') cwd_tree (Suc (Suc 0)) False ''foo/''
      [''.'', ''..'', ''x.txt'', ''bar''] [] = (Returned, [''foo/x.txt''])"
    by (simp add: cwd_tree_def table_fs_def Let_def d_name_visible_def S_IFREG_def S_IFDIR_def)
  have a: "createFileList (CHR ''/'') cwd_tree (Suc (Suc (Suc 0))) ''.'' [] =
     (Returned, ''./'', [''./foo/x.txt'', ''./foo/bar/y.txt''])"
    using createFileList_recursion_mode
      [of "''.''" "CHR ''/''" cwd_tree "0x41ED" "Suc (Suc 0)" "[]"] bits
    by (simp add: s st od sc1 Let_def del: createFileList.simps scanEntries.simps)
  have b: "createFileList (CHR ''/'') cwd_tree (Suc (Suc (Suc 0))) ''foo/.'' [] =
     (Returned, ''foo/'', [''foo/x.txt''])"
    using createFileList_recursion_mode
      [of "''foo/.''" "CHR ''/''" cwd_tree "0x41ED" "Suc (Suc 0)" "[]"] bits
    by (simp add: s st od sc2 Let_def del: createFileList.simps scanEntries.simps)
  from a b show ?thesis by simp
qed

subsection \<open>The non-recursive marker\<close>

text \<open>
  Claim C4. For a directory target \<open>D<sep>.\<close> the call is to append exactly the
  regular files that lie directly in \<open>D\<close> and are not hidden. It does not when \<open>stat\<close>
  fails on an entry: the loop throws there (lines 82-86). In \<open>broken_link_tree\<close> the
  files of \<open>d\<close> that are regular and not hidden are \<open>a.txt\<close> and \<open>b.txt\<close>; the call on
  \<open>d/.\<close> throws at the dangling link \<open>.gone\<close>, which stands between them, and
  \<open>d/b.txt\<close> is never appended.
\<close>

theorem createFileList_non_recursive_stat_failure:
  "createFileList (CHR ''/'') broken_link_tree (Suc 0) ''d/.'' [] =
     (IOException (''Cannot access input file '' @ quote @ ''d/.gone'' @ quote) ERR_OPEN_FILE,
      ''d/'', [''d/a.txt'']) \<and>
   opendir broken_link_tree ''d/'' = Some [''.'', ''..'', ''a.txt'', ''.gone'', ''b.txt''] \<and>
   map (\<lambda>e. ''d/'' @ e)
     (filter (\<lambda>e. \<not> hidden_name e \<and> is_regular_file broken_link_tree (''d/'' @ e))
        [''.'', ''..'', ''a.txt'', ''.gone'', ''b.txt'']) = [''d/a.txt'', ''d/b.txt'']"
  by (simp add: broken_link_tree_def table_fs_def char_at_def size_minus_def substr0_def Let_def
      isRecursive_def d_name_visible_def hidden_name_def is_regular_file_def quote_def
      S_IFMT_def S_IFREG_def S_IFDIR_def)

text \<open>
  Claim C4 as amended. Let \<open>D<sep>.\<close> be a directory target with the non-recursive
  marker (\<open>D\<close> is not empty: the marker needs three characters). When the directory can
  be opened, \<open>stat\<close> succeeds on every entry, and every entry is a regular file or has
  no \<open>S_IFREG\<close> bit in its mode (no entry is a socket), the call returns having appended
  exactly the entries of \<open>D\<close> that are regular files and not hidden, each as
  \<open>D<sep>name\<close>, in the order of the enumeration. This holds with any recursion budget,
  also the budget \<open>1\<close> that allows no recursive call: no subdirectory is entered. The
  instances are the tree of the specification, where \<open>src/.\<close> gives \<open>src/a.txt\<close> and
  \<open>src/b.txt\<close>, and a directory with a hidden regular file, which is left out.
\<close>

theorem createFileList_non_recursive_marker:
  assumes "sep \<noteq> CHR ''.''" and "D \<noteq> []"
    and "stat fs (D @ [sep, CHR ''.'']) = Some m" and "m AND S_IFMT = S_IFDIR"
    and "opendir fs (D @ [sep]) = Some entries"
    and "\<forall>e \<in> set entries. \<exists>me. stat fs (D @ [sep] @ e) = Some me \<and>
           (me AND S_IFMT = S_IFREG \<or> me AND S_IFREG = 0)"
  shows "createFileList sep fs (Suc n) (D @ [sep, CHR ''.'']) files =
           (Returned, D @ [sep],
            files @ map (\<lambda>e. D @ [sep] @ e)
              (filter (\<lambda>e. \<not> hidden_name e \<and> is_regular_file fs (D @ [sep] @ e)) entries))"
proof -
  let ?t = "D @ [sep, CHR ''.'']"
  have st: "strip_sep sep ?t = ?t"
    using assms(1) by (simp add: strip_sep_def)
  have nr: "\<not> isRecursive sep ?t"
    using assms(2) by (cases D) (simp_all add: isRecursive_def nth_append)
  have bl: "butlast ?t = D @ [sep]"
    by (simp add: butlast_append)
  have dp: "D @ [sep] = (if isRecursive sep (strip_sep sep ?t)
                    then (if last (strip_sep sep ?t) \<noteq> sep then strip_sep sep ?t @ [sep]
                          else strip_sep sep ?t)
                    else butlast (strip_sep sep ?t))"
    unfolding st using nr bl by simp
  have tests: "(d_name_visible e \<and> S_IFREG_bit_set fs ((D @ [sep]) @ e)) =
      (\<not> hidden_name e \<and> is_regular_file fs (D @ [sep] @ e))" if "e \<in> set entries" for e
  proof -
    from assms(6) that obtain me where me: "stat fs (D @ [sep] @ e) = Some me"
      "me AND S_IFMT = S_IFREG \<or> me AND S_IFREG = 0" by blast
    have "(me AND S_IFREG \<noteq> 0) = (me AND S_IFMT = S_IFREG)"
      using me(2) regular_mode [of me] by blast
    with me(1) show ?thesis
      by (simp add: d_name_visible_hidden S_IFREG_bit_set_def is_regular_file_def)
  qed
  have every: "\<forall>e \<in> set entries. stat fs ((D @ [sep]) @ e) \<noteq> None"
    using assms(6) by auto
  have "scanEntries sep fs n False (D @ [sep]) entries files =
     (Returned, files @ map (\<lambda>e. (D @ [sep]) @ e)
        (filter (\<lambda>e. d_name_visible e \<and> S_IFREG_bit_set fs ((D @ [sep]) @ e)) entries))"
    using every by (rule scanEntries_nonrecursive)
  also have "filter (\<lambda>e. d_name_visible e \<and> S_IFREG_bit_set fs ((D @ [sep]) @ e)) entries =
      filter (\<lambda>e. \<not> hidden_name e \<and> is_regular_file fs (D @ [sep] @ e)) entries"
    by (rule filter_cong) (simp_all only: tests)
  finally have sc: "scanEntries sep fs n False (D @ [sep]) entries files =
     (Returned, files @ map (\<lambda>e. (D @ [sep]) @ e)
        (filter (\<lambda>e. \<not> hidden_name e \<and> is_regular_file fs (D @ [sep] @ e)) entries))" .
  have "createFileList sep fs (Suc n) ?t files =
           (case opendir fs (D @ [sep]) of
              None \<Rightarrow>
                (IOException (''Cannot read directory '' @ quote @ (D @ [sep]) @ quote)
                   ERR_READ_FILE, D @ [sep], files)
            | Some entries \<Rightarrow>
                (case scanEntries sep fs n (isRecursive sep (strip_sep sep ?t)) (D @ [sep])
                        entries files of
                   (oc, files') \<Rightarrow> (oc, D @ [sep], files')))"
    by (rule createFileList_directory [where m = m])
      (use assms(3) directory_mode [OF assms(4)] dp in \<open>simp_all add: st\<close>)
  then show ?thesis
    using nr sc by (simp add: st assms(5))
qed

theorem createFileList_non_recursive_marker_witness:
  "createFileList (CHR ''/'') src_tree (Suc 0) ''src/.'' [] =
     (Returned, ''src/'', [''src/a.txt'', ''src/b.txt'']) \<and>
   createFileList (CHR ''/'') hidden_tree (Suc 0) ''h/.'' [] = (Returned, ''h/'', [''h/v.txt''])"
proof -
  have dir: "(0x41ED :: 32 word) AND S_IFMT = S_IFDIR"
    by (simp add: S_IFMT_def S_IFDIR_def)
  have st: "stat src_tree ''src/.'' = Some 0x41ED" "stat hidden_tree ''h/.'' = Some 0x41ED"
    by (simp_all add: src_tree_def hidden_tree_def table_fs_def)
  have od: "opendir src_tree ''src/'' = Some [''.'', ''..'', ''a.txt'', ''b.txt'', ''sub'']"
    "opendir hidden_tree ''h/'' = Some [''.'', ''..'', ''.secret'', ''v.txt'', ''sub'']"
    by (simp_all add: src_tree_def hidden_tree_def table_fs_def)
  have all: "\<forall>e \<in> set [''.'', ''..'', ''a.txt'', ''b.txt'', ''sub''].
      \<exists>me. stat src_tree (''src'' @ [CHR ''/''] @ e) = Some me \<and>
        (me AND S_IFMT = S_IFREG \<or> me AND S_IFREG = 0)"
    "\<forall>e \<in> set [''.'', ''..'', ''.secret'', ''v.txt'', ''sub''].
      \<exists>me. stat hidden_tree (''h'' @ [CHR ''/''] @ e) = Some me \<and>
        (me AND S_IFMT = S_IFREG \<or> me AND S_IFREG = 0)"
    by (simp_all add: src_tree_def hidden_tree_def table_fs_def S_IFMT_def S_IFREG_def)
  have a: "createFileList (CHR ''/'') src_tree (Suc 0) ''src/.'' [] =
     (Returned, ''src/'', [''src/a.txt'', ''src/b.txt''])"
    using createFileList_non_recursive_marker [of "CHR ''/''" "''src''" src_tree "0x41ED"
        "[''.'', ''..'', ''a.txt'', ''b.txt'', ''sub'']" 0 "[]"] dir all(1)
    by (simp add: st od src_tree_def table_fs_def hidden_name_def is_regular_file_def
        S_IFMT_def S_IFREG_def S_IFDIR_def del: createFileList.simps)
  have b: "createFileList (CHR ''/'') hidden_tree (Suc 0) ''h/.'' [] =
     (Returned, ''h/'', [''h/v.txt''])"
    using createFileList_non_recursive_marker [of "CHR ''/''" "''h''" hidden_tree "0x41ED"
        "[''.'', ''..'', ''.secret'', ''v.txt'', ''sub'']" 0 "[]"] dir all(2)
    by (simp add: st od hidden_tree_def table_fs_def hidden_name_def is_regular_file_def
        S_IFMT_def S_IFREG_def S_IFDIR_def del: createFileList.simps)
  from a b show ?thesis by simp
qed

text \<open>
  The entries that the amended statement leaves aside: line 90 tests one bit of the mode,
  which the mode of a socket has too, so a socket in the directory is appended with the
  regular files.
\<close>

theorem createFileList_non_recursive_socket:
  "createFileList (CHR ''/'') socket_tree (Suc 0) ''mix/.'' [] =
     (Returned, ''mix/'', [''mix/reg.txt'', ''mix/sock'']) \<and>
   \<not> is_regular_file socket_tree ''mix/sock''"
  by (simp add: socket_tree_def table_fs_def char_at_def size_minus_def substr0_def Let_def
      isRecursive_def d_name_visible_def is_regular_file_def S_IFMT_def S_IFREG_def S_IFDIR_def)

subsection \<open>Degenerate targets\<close>

text \<open>
  Claim C6. The call is to be free of out-of-range string accesses on an empty target,
  on a target that is the separator alone and on a target that ends in several
  separators. On the empty target it is not: line 38 reads \<open>target[target.size()-1]\<close>,
  and \<open>size() - 1\<close> wraps around to the largest \<open>size_t\<close> value, an index far beyond
  the string, before any separator is stripped.
\<close>

theorem createFileList_empty_target:
  "createFileList sep fs (Suc n) [] files = (OutOfBounds, [], files)"
  by (simp add: char_at_def size_minus_def)

subsection \<open>The target string after the call\<close>

text \<open>
  Claim C8. A call on a directory target assigns to the caller's string: afterwards it is
  the stripped target with the separator appended (recursive mode, when it is not there
  already) or without its final dot (non-recursive mode). The claim concludes that the
  original string is never preserved. That fails for a target that ends in one separator:
  line 39 strips it and line 69 appends it again. The run below is such a call, on
  \<open>src/\<close>.
\<close>

theorem createFileList_restores_trailing_separator:
  "\<not> fst (snd (createFileList (CHR ''/'') src_tree (Suc (Suc 0)) ''src/'' [])) \<noteq> ''src/''"
  by (simp add: src_tree_def table_fs_def char_at_def size_minus_def substr0_def Let_def
      isRecursive_def d_name_visible_def S_IFREG_def S_IFDIR_def)

text \<open>
  Claim C8 as amended. After a call on a directory target the caller's string is the
  stripped target with the separator appended (recursive mode, when it is not there
  already) or without its final dot (non-recursive mode), however the call ends. It
  equals the original string exactly when the original ends in a separator and, with that
  separator stripped, is recursive and does not end in a separator; in every other case
  the original string is not preserved.
\<close>

theorem createFileList_target_after_call:
  assumes "target \<noteq> []" and "strip_sep sep target \<noteq> []"
    and "stat fs (strip_sep sep target) = Some m" and "m AND S_IFREG = 0" and "m AND S_IFDIR \<noteq> 0"
  shows "fst (snd (createFileList sep fs (Suc n) target files)) =
           (let t = strip_sep sep target in
            if isRecursive sep t then (if last t \<noteq> sep then t @ [sep] else t) else butlast t) \<and>
         (fst (snd (createFileList sep fs (Suc n) target files)) = target) =
           (last target = sep \<and> isRecursive sep (butlast target) \<and> last (butlast target) \<noteq> sep)"
proof -
  let ?t = "strip_sep sep target"
  let ?d = "if isRecursive sep ?t then (if last ?t \<noteq> sep then ?t @ [sep] else ?t) else butlast ?t"
  have after: "fst (snd (createFileList sep fs (Suc n) target files)) = ?d"
    unfolding createFileList_directory [OF assms refl]
    by (simp split: option.split prod.split)
  have shorter: "butlast xs \<noteq> xs" if "xs \<noteq> []" for xs :: string
    using that by (induction xs) auto
  have "(?d = target) =
      (last target = sep \<and> isRecursive sep (butlast target) \<and> last (butlast target) \<noteq> sep)"
  proof (cases "last target = sep")
    case True
    then have t: "?t = butlast target" by (simp add: strip_sep_def)
    have tg: "target = butlast target @ [sep]"
      using assms(1) True by (metis append_butlast_last_id)
    have "length (butlast (butlast target)) < length target"
      using assms(1) by simp
    then have ne: "butlast (butlast target) \<noteq> target" by (metis less_irrefl)
    show ?thesis
      unfolding t using True tg ne shorter [OF assms(1)] by auto
  next
    case False
    then have t: "?t = target" by (simp add: strip_sep_def)
    show ?thesis
      unfolding t using False shorter [OF assms(1)] by simp
  qed
  with after show ?thesis by (simp add: Let_def)
qed

text \<open>
  On \<open>src/.\<close> the caller's string becomes \<open>src/\<close>; on \<open>src/\<close> it ends as it began.
\<close>

theorem createFileList_target_after_call_witness:
  "fst (snd (createFileList (CHR ''/'') src_tree (Suc 0) ''src/.'' [])) = ''src/'' \<and>
   fst (snd (createFileList (CHR ''/'') src_tree (Suc 0) ''src/'' [])) = ''src/''"
proof -
  have bits: "(0x41ED :: 32 word) AND S_IFREG = 0" "(0x41ED :: 32 word) AND S_IFDIR \<noteq> 0"
    by (simp_all add: mode_bits)
  have s: "strip_sep (CHR ''/'') ''src/.'' = ''src/.''" "strip_sep (CHR ''/'') ''src/'' = ''src''"
    by (simp_all add: strip_sep_def)
  have st: "stat src_tree ''src/.'' = Some 0x41ED" "stat src_tree ''src'' = Some 0x41ED"
    by (simp_all add: src_tree_def table_fs_def)
  have r: "\<not> isRecursive (CHR ''/'') ''src/.''" "isRecursive (CHR ''/'') ''src''"
    by (simp_all add: isRecursive_def)
  have a: "fst (snd (createFileList (CHR ''/'') src_tree (Suc 0) ''src/.'' [])) = ''src/''"
    using createFileList_target_after_call
      [of "''src/.''" "CHR ''/''" src_tree "0x41ED" 0 "[]"] bits
    by (simp add: s st r Let_def del: createFileList.simps)
  have b: "fst (snd (createFileList (CHR ''/'') src_tree (Suc 0) ''src/'' [])) = ''src/''"
    using createFileList_target_after_call
      [of "''src/''" "CHR ''/''" src_tree "0x41ED" 0 "[]"] bits
    by (simp add: s st r Let_def del: createFileList.simps)
  from a b show ?thesis by simp
qed

subsection \<open>A failing \<open>stat\<close> inside the loop\<close>

text \<open>
  Claim C10. The loop calls \<open>stat\<close> on every entry before it looks at the first
  character of the name. When the entries before \<open>d_name\<close> have been read without an
  exception and \<open>stat\<close> fails on \<open>d_name\<close>, whatever the name is (a hidden one, \<open>.\<close> and
  \<open>..\<close> included), the call throws the open-file error that names the entry, and the
  vector keeps what the earlier entries appended. The instance is a hidden dangling link
  between two regular files.
\<close>

theorem createFileList_stat_failure_aborts:
  assumes "target \<noteq> []" and "strip_sep sep target \<noteq> []"
    and "stat fs (strip_sep sep target) = Some m" and "m AND S_IFREG = 0" and "m AND S_IFDIR \<noteq> 0"
    and "dirpath = (if isRecursive sep (strip_sep sep target)
                    then (if last (strip_sep sep target) \<noteq> sep then strip_sep sep target @ [sep]
                          else strip_sep sep target)
                    else butlast (strip_sep sep target))"
    and "opendir fs dirpath = Some (before @ d_name # after)"
    and "scanEntries sep fs n (isRecursive sep (strip_sep sep target)) dirpath before files =
           (Returned, files1)"
    and "stat fs (dirpath @ d_name) = None"
  shows "createFileList sep fs (Suc n) target files =
           (IOException (''Cannot access input file '' @ quote @ dirpath @ d_name @ quote)
              ERR_OPEN_FILE, dirpath, files1)"
proof -
  have "scanEntries sep fs n (isRecursive sep (strip_sep sep target)) dirpath
          (before @ d_name # after) files =
        scanEntries sep fs n (isRecursive sep (strip_sep sep target)) dirpath
          (d_name # after) files1"
    using assms(8) by (rule scanEntries_append)
  also have "\<dots> = (IOException (''Cannot access input file '' @ quote @ dirpath @ d_name @ quote)
              ERR_OPEN_FILE, files1)"
    using assms(9) by simp
  finally show ?thesis
    unfolding createFileList_directory [OF assms(1-6)] by (simp add: assms(7))
qed

theorem createFileList_stat_failure_aborts_witness:
  "createFileList (CHR ''/'') broken_link_tree (Suc 0) ''d'' [] =
     (IOException (''Cannot access input file '' @ quote @ ''d/.gone'' @ quote) ERR_OPEN_FILE,
      ''d/'', [''d/a.txt''])"
proof -
  have bits: "(0x41ED :: 32 word) AND S_IFREG = 0" "(0x41ED :: 32 word) AND S_IFDIR \<noteq> 0"
    by (simp_all add: mode_bits)
  have s: "strip_sep (CHR ''/'') ''d'' = ''d''"
    by (simp add: strip_sep_def)
  have r: "isRecursive (CHR ''/'') ''d''"
    by (simp add: isRecursive_def)
  have sc: "scanEntries (CHR ''/'') broken_link_tree 0 True ''d/'' [''.'', ''..'', ''a.txt''] [] =
       (Returned, [''d/a.txt''])"
    by (simp add: broken_link_tree_def table_fs_def d_name_visible_def mode_bits)
  have fs: "stat broken_link_tree ''d'' = Some 0x41ED"
    "opendir broken_link_tree ''d/'' = Some ([''.'', ''..'', ''a.txt''] @ ''.gone'' # [''b.txt''])"
    "stat broken_link_tree (''d/'' @ ''.gone'') = None"
    by (simp_all add: broken_link_tree_def table_fs_def)
  show ?thesis
    using createFileList_stat_failure_aborts [of "''d''" "CHR ''/''" broken_link_tree "0x41ED"
      "''d/''" "[''.'', ''..'', ''a.txt'']" "''.gone''" "[''b.txt'']" 0 "[]" "[''d/a.txt'']"]
      bits sc fs
    by (simp add: s r del: createFileList.simps scanEntries.simps)
qed

subsection \<open>Further properties of the enumeration\<close>

text \<open>
  What the code does with a target that \<open>stat\<close> reports as a regular file: it appends the
  stripped target unless its first character is a dot, and returns.
\<close>

theorem createFileList_regular_target:
  assumes "target \<noteq> []"
    and "stat fs (strip_sep sep target) = Some m" and "m AND S_IFREG \<noteq> 0"
  shows "createFileList sep fs (Suc n) target files =
           (Returned, strip_sep sep target,
            if strip_sep sep target = [] \<or> hd (strip_sep sep target) \<noteq> CHR ''.''
            then files @ [strip_sep sep target] else files)"
  using assms by (rule createFileList_regular)

theorem createFileList_regular_target_witness:
  "createFileList (CHR ''/'') src_tree (Suc 0) ''src/a.txt'' [] =
     (Returned, ''src/a.txt'', [''src/a.txt''])"
proof -
  have "(0x81A4 :: 32 word) AND S_IFREG \<noteq> 0"
    by (simp add: mode_bits)
  then show ?thesis
    using createFileList_regular_target [of "''src/a.txt''" src_tree "CHR ''/''" "0x81A4" 0 "[]"]
    by (simp add: strip_sep_def src_tree_def table_fs_def del: createFileList.simps)
qed

text \<open>
  On a file system where \<open>stat\<close> fails on the empty path (as POSIX has it), no call with
  a non-empty target indexes a string out of range, at any depth of the recursion. This
  covers the target that is the separator alone and the targets that end in several
  separators.
\<close>

lemma scanEntries_in_bounds:
  assumes "\<And>t f. t \<noteq> [] \<Longrightarrow> fst (createFileList sep fs n t f) \<noteq> OutOfBounds"
    and "dir \<noteq> []"
  shows "fst (scanEntries sep fs n isRec dir entries files) \<noteq> OutOfBounds"
proof (induction entries arbitrary: files)
  case Nil
  show ?case by simp
next
  case (Cons e entries)
  show ?case
  proof (cases "stat fs (dir @ e)")
    case None
    then show ?thesis by simp
  next
    case (Some m)
    have ne: "dir @ e \<noteq> []" using assms(2) by simp
    obtain oc t fl where r: "createFileList sep fs n (dir @ e) files = (oc, t, fl)"
      by (cases "createFileList sep fs n (dir @ e) files")
    have "oc \<noteq> OutOfBounds"
      using assms(1) [OF ne, of files] r by simp
    with Some r Cons.IH show ?thesis
      by (cases oc) (auto simp: Let_def)
  qed
qed

theorem createFileList_in_bounds:
  assumes "stat fs [] = None" and "target \<noteq> []"
  shows "fst (createFileList sep fs n target files) \<noteq> OutOfBounds"
  using assms(2)
proof (induction n arbitrary: target files)
  case 0
  show ?case by simp
next
  case (Suc n)
  let ?t = "strip_sep sep target"
  show ?case
  proof (cases "stat fs ?t")
    case None
    then show ?thesis
      unfolding createFileList.simps char_at_last [OF Suc.prems] substr0_butlast [OF Suc.prems]
        option.case strip_sep_def [symmetric] Let_def
      by simp
  next
    case (Some m)
    then have ne: "?t \<noteq> []" using assms(1) by auto
    show ?thesis
    proof (cases "m AND S_IFREG \<noteq> 0")
      case True
      show ?thesis
        unfolding createFileList_regular [OF Suc.prems Some True] by simp
    next
      case False
      then have reg: "m AND S_IFREG = 0" by simp
      show ?thesis
      proof (cases "m AND S_IFDIR = 0")
        case True
        show ?thesis
          unfolding createFileList.simps char_at_last [OF Suc.prems] substr0_butlast [OF Suc.prems]
            option.case strip_sep_def [symmetric] Let_def Some
          using reg True by simp
      next
        case False
        define d where "d = (if isRecursive sep ?t
            then (if last ?t \<noteq> sep then ?t @ [sep] else ?t) else butlast ?t)"
        have "butlast ?t \<noteq> []" if "\<not> isRecursive sep ?t"
        proof
          assume "butlast ?t = []"
          then have "length (butlast ?t) = 0" by simp
          with that show False by (simp add: isRecursive_def)
        qed
        then have d: "d \<noteq> []"
          using ne by (auto simp: d_def)
        note dir = createFileList_directory [OF Suc.prems ne Some reg False d_def]
        show ?thesis
        proof (cases "opendir fs d")
          case None
          then show ?thesis
            unfolding dir by simp
        next
          case (Some entries)
          obtain oc fl where
            r: "scanEntries sep fs n (isRecursive sep ?t) d entries files = (oc, fl)"
            by (cases "scanEntries sep fs n (isRecursive sep ?t) d entries files")
          have "fst (scanEntries sep fs n (isRecursive sep ?t) d entries files) \<noteq> OutOfBounds"
            by (rule scanEntries_in_bounds) (use Suc.IH d in auto)
          with r have "oc \<noteq> OutOfBounds" by simp
          then show ?thesis
            unfolding dir Some option.case r by simp
        qed
      qed
    qed
  qed
qed

theorem createFileList_in_bounds_witness:
  "fst (createFileList (CHR ''/'') src_tree (Suc (Suc 0)) ''/'' []) \<noteq> OutOfBounds \<and>
   fst (createFileList (CHR ''/'') src_tree (Suc (Suc 0)) ''src//'' []) \<noteq> OutOfBounds \<and>
   createFileList (CHR ''/'') src_tree (Suc (Suc 0)) ''src//'' [] =
     (Returned, ''src/'', [''src/a.txt'', ''src/b.txt'', ''src/sub/c.txt''])"
proof -
  have e: "stat src_tree [] = None"
    by (simp add: src_tree_def table_fs_def)
  have a: "fst (createFileList (CHR ''/'') src_tree (Suc (Suc 0)) ''/'' []) \<noteq> OutOfBounds"
    by (rule createFileList_in_bounds [OF e]) simp
  have b: "fst (createFileList (CHR ''/'') src_tree (Suc (Suc 0)) ''src//'' []) \<noteq> OutOfBounds"
    by (rule createFileList_in_bounds [OF e]) simp
  have c: "createFileList (CHR ''/'') src_tree (Suc (Suc 0)) ''src//'' [] =
     (Returned, ''src/'', [''src/a.txt'', ''src/b.txt'', ''src/sub/c.txt''])"
    by (simp add: src_tree_def table_fs_def char_at_def size_minus_def substr0_def Let_def
        isRecursive_def d_name_visible_def S_IFREG_def S_IFDIR_def)
  from a b c show ?thesis by blast
qed

text \<open>
  The vector only grows: whatever the target and however the call ends, the vector after
  the call is the vector before it with paths appended.
\<close>

lemma scanEntries_appends:
  assumes "\<And>t f. \<exists>ys. snd (snd (createFileList sep fs n t f)) = f @ ys"
  shows "\<exists>ys. snd (scanEntries sep fs n isRec dir entries files) = files @ ys"
proof (induction entries arbitrary: files)
  case Nil
  show ?case by simp
next
  case (Cons e entries)
  show ?case
  proof (cases "stat fs (dir @ e)")
    case None
    then show ?thesis by simp
  next
    case (Some m)
    obtain oc t fl where r: "createFileList sep fs n (dir @ e) files = (oc, t, fl)"
      by (cases "createFileList sep fs n (dir @ e) files")
    obtain ys where ys: "fl = files @ ys"
      using assms [of "dir @ e" files] r by auto
    obtain zs where zs: "snd (scanEntries sep fs n isRec dir entries fl) = fl @ zs"
      using Cons.IH [of fl] by blast
    obtain us where us: "snd (scanEntries sep fs n isRec dir entries (files @ [dir @ e])) =
        (files @ [dir @ e]) @ us"
      using Cons.IH [of "files @ [dir @ e]"] by blast
    obtain vs where vs: "snd (scanEntries sep fs n isRec dir entries files) = files @ vs"
      using Cons.IH [of files] by blast
    show ?thesis
      using Some r ys zs us vs by (cases oc) (auto simp: Let_def)
  qed
qed



theorem createFileList_appends:
  "\<exists>ys. snd (snd (createFileList sep fs n target files)) = files @ ys"
proof (induction n arbitrary: target files)
  case 0
  show ?case by simp
next
  case (Suc n)
  show ?case
  proof (cases "char_at target (size_minus (length target) 1)")
    case None
    then show ?thesis by simp
  next
    case (Some c)
    define t1 where "t1 = (if c = sep then substr0 target (size_minus (length target) 1) else target)"
    define t2 where "t2 = (if isRecursive sep t1 then
                          (case char_at t1 (size_minus (length t1) 1) of
                             None \<Rightarrow> None
                           | Some c1 \<Rightarrow> Some (if c1 \<noteq> sep then t1 @ [sep] else t1))
                        else Some (substr0 t1 (size_minus (length t1) 1)))"
    have body: "createFileList sep fs (Suc n) target files =
          (case stat fs t1 of
             None \<Rightarrow>
               (IOException (''Cannot access input file '' @ quote @ t1 @ quote) ERR_OPEN_FILE,
                t1, files)
           | Some st_mode \<Rightarrow>
               if st_mode AND S_IFREG \<noteq> 0 then
                 (case char_at t1 0 of
                    None \<Rightarrow> (OutOfBounds, t1, files)
                  | Some c0 \<Rightarrow>
                      (Returned, t1, if c0 \<noteq> CHR ''.'' then files @ [t1] else files))
               else if st_mode AND S_IFDIR = 0 then
                 (IOException (''Invalid file type '' @ quote @ t1 @ quote) ERR_OPEN_FILE,
                  t1, files)
               else
                 (case t2 of
                    None \<Rightarrow> (OutOfBounds, t1, files)
                  | Some dirpath \<Rightarrow>
                      (case opendir fs dirpath of
                         None \<Rightarrow>
                           (IOException (''Cannot read directory '' @ quote @ dirpath @ quote)
                              ERR_READ_FILE, dirpath, files)
                       | Some entries \<Rightarrow>
                           (case scanEntries sep fs n (isRecursive sep t1) dirpath entries files of
                              (oc, files') \<Rightarrow> (oc, dirpath, files')))))"
      unfolding createFileList.simps Some option.case Let_def t1_def t2_def ..
    show ?thesis
    proof (cases "stat fs t1")
      case None
      then show ?thesis unfolding body by simp
    next
      case st: (Some m)
      show ?thesis
      proof (cases "m AND S_IFREG \<noteq> 0")
        case True
        then show ?thesis unfolding body st by (simp add: char_at_0)
      next
        case reg: False
        show ?thesis
        proof (cases "m AND S_IFDIR = 0")
          case True
          with reg show ?thesis unfolding body st by simp
        next
          case dir: False
          show ?thesis
          proof (cases t2)
            case None
            with reg dir show ?thesis unfolding body st by simp
          next
            case d: (Some dirpath)
            show ?thesis
            proof (cases "opendir fs dirpath")
              case None
              with reg dir d show ?thesis unfolding body st by simp
            next
              case od: (Some entries)
              obtain oc fl where
                r: "scanEntries sep fs n (isRecursive sep t1) dirpath entries files = (oc, fl)"
                by (cases "scanEntries sep fs n (isRecursive sep t1) dirpath entries files")
              have "\<exists>ys. snd (scanEntries sep fs n (isRecursive sep t1) dirpath entries files) =
                  files @ ys"
                by (rule scanEntries_appends) (rule Suc.IH)
              with r reg dir d od show ?thesis unfolding body st by simp
            qed
          qed
        qed
      qed
    qed
  qed
qed

text \<open>
  The recursive scenario of the specification: \<open>src\<close> gives its two files and the file
  of its subdirectory.
\<close>

theorem createFileList_recursive_listing:
  "createFileList (CHR ''/'') src_tree (Suc (Suc 0)) ''src'' [] =
     (Returned, ''src/'', [''src/a.txt'', ''src/b.txt'', ''src/sub/c.txt''])"
  by (simp add: src_tree_def table_fs_def char_at_def size_minus_def substr0_def Let_def
      isRecursive_def d_name_visible_def S_IFREG_def S_IFDIR_def)

section \<open>Properties of \<open>mkdirAll\<close>\<close>

subsection \<open>The loop as a sequence of calls\<close>

lemma sep_prefixes_step:
  "k < length path \<Longrightarrow>
   sep_prefixes sep path k =
     (if path ! k = sep then take k path # sep_prefixes sep path (Suc k)
      else sep_prefixes sep path (Suc k))"
  by (simp add: sep_prefixes_def upt_conv_Cons)

lemma sep_prefixes_end: "length path \<le> k \<Longrightarrow> sep_prefixes sep path k = []"
  by (simp add: sep_prefixes_def)

text \<open>
  On a path shorter than \<open>2 ^ 32\<close> the counter does not wrap around: the loop ends, and
  it makes the calls of \<open>sep_prefixes\<close> in their order.
\<close>

lemma mkdirAll_loop_try_all:
  assumes "length path < 2 ^ 32"
  shows "k \<le> length path \<Longrightarrow>
         mkdirAll_loop sep mkdir path (of_nat k) errno fs =
           Some (try_all mkdir (sep_prefixes sep path k) errno fs)"
proof (induction "length path - k" arbitrary: k errno fs)
  case 0
  then have k: "k = length path" by simp
  have u: "unat (of_nat (length path) :: 32 word) = length path"
    using assms by (simp add: unsigned_of_nat take_bit_nat_eq_self)
  show ?case
    unfolding k by (subst mkdirAll_loop.simps) (simp add: u sep_prefixes_end)
next
  case (Suc d)
  then have lt: "k < length path" by simp
  have u: "unat (of_nat k :: 32 word) = k"
    using assms lt by (simp add: unsigned_of_nat take_bit_nat_eq_self)
  have nx: "(of_nat k :: 32 word) + 1 = of_nat (Suc k)" by simp
  have ih: "mkdirAll_loop sep mkdir path (of_nat (Suc k)) e s =
           Some (try_all mkdir (sep_prefixes sep path (Suc k)) e s)" for e s
    using Suc.hyps(1) [of "Suc k" e s] Suc.hyps(2) lt by simp
  show ?case
    by (subst mkdirAll_loop.simps)
      (simp add: u lt nx ih sep_prefixes_step substr0_def Let_def del: of_nat_Suc
        split: prod.split option.split)
qed

lemma try_all_append:
  "try_all mkdir (ps @ qs) errno fs =
     (case try_all mkdir ps errno fs of
        (Some r, e, s) \<Rightarrow> (Some r, e, s)
      | (None, e, s) \<Rightarrow> try_all mkdir qs e s)"
  by (induction ps arbitrary: errno fs) (auto split: prod.split option.split)

lemma mkdirAll_try_all:
  assumes "length path < 2 ^ 32"
  shows "mkdirAll sep mkdir path fs =
           Some (case try_all mkdir (creation_calls sep path) 0 fs of
                   (Some r, e, s) \<Rightarrow> (r, e, s)
                 | (None, e, s) \<Rightarrow> (0, e, s))"
proof -
  have "mkdirAll_loop sep mkdir path 0 0 fs = Some (try_all mkdir (sep_prefixes sep path 0) 0 fs)"
    using mkdirAll_loop_try_all [OF assms, of 0 sep mkdir 0 fs] by simp
  then show ?thesis
    by (simp add: mkdirAll_def creation_calls_def try_all_append split: prod.split option.split)
qed

text \<open>A run of calls ends with \<open>-1\<close> exactly when one of them fails hard.\<close>

lemma try_all_result:
  "fst (try_all mkdir ps errno fs) =
     (if \<exists>k < length ps. hard_failure mkdir (state_before mkdir fs ps k) (ps ! k)
      then Some (- 1) else None)"
proof (induction ps arbitrary: errno fs)
  case Nil
  then show ?case by simp
next
  case (Cons p ps)
  obtain r s where m: "mkdir fs p = (r, s)" by (cases "mkdir fs p")
  have shift:
    "(\<exists>k < length (p # ps). hard_failure mkdir (state_before mkdir fs (p # ps) k) ((p # ps) ! k)) =
     (hard_failure mkdir fs p \<or>
      (\<exists>k < length ps. hard_failure mkdir (state_before mkdir s ps k) (ps ! k)))"
    (is "?L = (?H \<or> ?R)")
  proof
    assume ?L
    then obtain k where k: "k < length (p # ps)"
      "hard_failure mkdir (state_before mkdir fs (p # ps) k) ((p # ps) ! k)" by blast
    show "?H \<or> ?R"
    proof (cases k)
      case 0
      with k show ?thesis by (simp add: state_before_def)
    next
      case (Suc j)
      with k m have "j < length ps \<and> hard_failure mkdir (state_before mkdir s ps j) (ps ! j)"
        by (simp add: state_before_def)
      then show ?thesis by blast
    qed
  next
    assume "?H \<or> ?R"
    then show ?L
    proof
      assume ?H
      then have "hard_failure mkdir (state_before mkdir fs (p # ps) 0) ((p # ps) ! 0)"
        by (simp add: state_before_def)
      then show ?L by blast
    next
      assume ?R
      then obtain j where "j < length ps" "hard_failure mkdir (state_before mkdir s ps j) (ps ! j)"
        by blast
      with m have "Suc j < length (p # ps) \<and>
          hard_failure mkdir (state_before mkdir fs (p # ps) (Suc j)) ((p # ps) ! Suc j)"
        by (simp add: state_before_def)
      then show ?L by blast
    qed
  qed
  show ?case
  proof (cases "hard_failure mkdir fs p")
    case True
    with m shift show ?thesis
      by (auto simp: hard_failure_def split: option.splits)
  next
    case False
    with m have "fst (try_all mkdir (p # ps) errno fs) =
        fst (try_all mkdir ps (case r of None \<Rightarrow> errno | Some e \<Rightarrow> e) s)"
      by (auto simp: hard_failure_def split: option.splits)
    with False shift Cons.IH show ?thesis by simp
  qed
qed

subsection \<open>The returned value\<close>

text \<open>
  Claim C7. The creation calls of \<open>mkdirAll(path)\<close> are, in order, the prefixes of the
  path that end before a separator and then the full path. The function returns \<open>-1\<close> if
  and only if one of these calls, made in the state that the calls before it have left,
  fails with an error other than \<open>EEXIST\<close>; otherwise it returns \<open>0\<close>, whatever number of
  calls failed with \<open>EEXIST\<close>. The path is shorter than \<open>2 ^ 32\<close>, so that the \<open>uint\<close>
  counter of the loop reaches the end of the string.
\<close>

theorem mkdirAll_fails_iff_hard_failure:
  assumes "length path < 2 ^ 32"
  shows "\<exists>r errno fs'. mkdirAll sep mkdir path fs = Some (r, errno, fs') \<and> (r = - 1 \<or> r = 0) \<and>
           (r = - 1) = (\<exists>k < length (creation_calls sep path).
              hard_failure mkdir (state_before mkdir fs (creation_calls sep path) k)
                (creation_calls sep path ! k))"
proof -
  obtain r e s where t: "try_all mkdir (creation_calls sep path) 0 fs = (r, e, s)"
    by (cases "try_all mkdir (creation_calls sep path) 0 fs")
  have "r = (if \<exists>k < length (creation_calls sep path).
              hard_failure mkdir (state_before mkdir fs (creation_calls sep path) k)
                (creation_calls sep path ! k) then Some (- 1) else None)"
    using try_all_result [of mkdir "creation_calls sep path" 0 fs] t by simp
  then show ?thesis
    unfolding mkdirAll_try_all [OF assms] t by (simp split: if_splits)
qed

text \<open>
  On an empty tree \<open>a/b\<close> is created with no failing call and the result is \<open>0\<close>; the
  same call on the tree that holds \<open>a\<close> and \<open>a/b\<close> meets \<open>EEXIST\<close> twice and the result
  is \<open>0\<close> again.
\<close>

theorem mkdirAll_fails_iff_hard_failure_witness:
  "mkdirAll (CHR ''/'') (posix_mkdir (CHR ''/'')) ''a/b'' [] = Some (0, 0, [[''a''], [''a'', ''b'']]) \<and>
   \<not> (\<exists>k < length (creation_calls (CHR ''/'') ''a/b'').
        hard_failure (posix_mkdir (CHR ''/''))
          (state_before (posix_mkdir (CHR ''/'')) [] (creation_calls (CHR ''/'') ''a/b'') k)
          (creation_calls (CHR ''/'') ''a/b'' ! k)) \<and>
   mkdirAll (CHR ''/'') (posix_mkdir (CHR ''/'')) ''a/b'' [[''a''], [''a'', ''b'']] =
     Some (0, EEXIST, [[''a''], [''a'', ''b'']])"
proof -
  have v: "mkdirAll (CHR ''/'') (posix_mkdir (CHR ''/'')) ''a/b'' [] =
      Some (0, 0, [[''a''], [''a'', ''b'']])"
    by (simp add: mkdirAll_def mkdirAll_loop.simps posix_mkdir_def ENOENT_def EEXIST_def
        substr0_def Let_def)
  have w: "mkdirAll (CHR ''/'') (posix_mkdir (CHR ''/'')) ''a/b'' [[''a''], [''a'', ''b'']] =
      Some (0, EEXIST, [[''a''], [''a'', ''b'']])"
    by (simp add: mkdirAll_def mkdirAll_loop.simps posix_mkdir_def ENOENT_def EEXIST_def
        substr0_def Let_def)
  have "length ''a/b'' < 2 ^ 32" by simp
  from mkdirAll_fails_iff_hard_failure [OF this, of "CHR ''/''" "posix_mkdir (CHR ''/'')" "[]"]
  obtain r errno fs' where
    "mkdirAll (CHR ''/'') (posix_mkdir (CHR ''/'')) ''a/b'' [] = Some (r, errno, fs')"
    "(r = - 1) = (\<exists>k < length (creation_calls (CHR ''/'') ''a/b'').
        hard_failure (posix_mkdir (CHR ''/''))
          (state_before (posix_mkdir (CHR ''/'')) [] (creation_calls (CHR ''/'') ''a/b'') k)
          (creation_calls (CHR ''/'') ''a/b'' ! k))"
    by blast
  with v w show ?thesis by simp
qed

subsection \<open>Absolute paths\<close>

text \<open>
  Claim C9. On a path that begins with the separator the first round of the loop asks
  for the empty prefix to be created. When that call fails with an error other than
  \<open>EEXIST\<close> (POSIX answers \<open>ENOENT\<close> to the empty path), \<open>mkdirAll\<close> returns \<open>-1\<close> at once,
  with that error in \<open>errno\<close>: nothing else about the state of the file system or the
  rest of the path, its length included, has a part in it.
\<close>

theorem mkdirAll_absolute_path:
  assumes "fst (mkdir fs []) = Some e" and "e \<noteq> EEXIST"
  shows "mkdirAll sep mkdir (sep # rest) fs = Some (- 1, e, snd (mkdir fs []))"
proof -
  obtain s where m: "mkdir fs [] = (Some e, s)"
    using assms(1) by (cases "mkdir fs []") simp
  then have "mkdirAll_loop sep mkdir (sep # rest) 0 0 fs = Some (Some (- 1), e, s)"
    using assms(2) by (subst mkdirAll_loop.simps) (simp add: substr0_def)
  with m show ?thesis
    by (simp add: mkdirAll_def)
qed

theorem mkdirAll_absolute_path_witness:
  "mkdirAll (CHR ''/'') (posix_mkdir (CHR ''/'')) ''/tmp/out'' [[''tmp'']] =
     Some (- 1, ENOENT, [[''tmp'']])"
  using mkdirAll_absolute_path
    [of "posix_mkdir (CHR ''/'')" "[[''tmp'']]" ENOENT "CHR ''/''" "''tmp/out''"]
  by (simp add: posix_mkdir_def ENOENT_def EEXIST_def)

subsection \<open>Creating a chain of directories\<close>

text \<open>
  Claim C5. For every path whose chain of parents the caller may create, \<open>mkdirAll\<close> is
  to return \<open>0\<close> and leave the path as a directory. In the tree below every directory is
  writable and \<open>mkdir\<close> creates \<open>/a\<close> when asked directly; \<open>mkdirAll\<close> on \<open>/a\<close> returns
  \<open>-1\<close> and leaves the tree empty, since its loop starts at index \<open>0\<close> and so asks for the
  empty prefix first.
\<close>

theorem mkdirAll_rejects_creatable_absolute_path:
  "mkdirAll (CHR ''/'') (posix_mkdir (CHR ''/'')) ''/a'' [] = Some (- 1, ENOENT, []) \<and>
   posix_mkdir (CHR ''/'') [] ''/a'' = (None, [[''a'']])"
  by (simp add: mkdirAll_def mkdirAll_loop.simps posix_mkdir_def ENOENT_def EEXIST_def
      substr0_def Let_def)

subsection \<open>Further properties of the directory builder\<close>

text \<open>
  The \<open>mkdir\<close> of the tree on the names \<open>.\<close> and \<open>..\<close>: they are never created, and
  they are walked through on the way to the last name.
\<close>

lemma posix_mkdir_dot_names:
  "posix_mkdir (CHR ''/'') [[''a'']] ''.'' = (Some EEXIST, [[''a'']])"
  "posix_mkdir (CHR ''/'') [[''a'']] ''a/..'' = (Some EEXIST, [[''a'']])"
  "posix_mkdir (CHR ''/'') [[''a'']] ''x/..'' = (Some ENOENT, [[''a'']])"
  "posix_mkdir (CHR ''/'') [[''a'']] ''a/./b'' = (None, [[''a''], [''a'', ''b'']])"
  "posix_mkdir (CHR ''/'') [[''a'']] ''a/../c'' = (None, [[''a''], [''c'']])"
  by (simp_all add: posix_mkdir_def ENOENT_def EEXIST_def)

text \<open>
  The scenario of the specification on a relative path: on the empty tree \<open>a/b/c\<close>
  creates the three directories and returns \<open>0\<close>; called again it returns \<open>0\<close> and
  leaves the tree as it is, with \<open>EEXIST\<close> left in \<open>errno\<close>.
\<close>

theorem mkdirAll_creates_chain_once:
  "mkdirAll (CHR ''/'') (posix_mkdir (CHR ''/'')) ''a/b/c'' [] =
     Some (0, 0, [[''a''], [''a'', ''b''], [''a'', ''b'', ''c'']]) \<and>
   mkdirAll (CHR ''/'') (posix_mkdir (CHR ''/'')) ''a/b/c''
       [[''a''], [''a'', ''b''], [''a'', ''b'', ''c'']] =
     Some (0, EEXIST, [[''a''], [''a'', ''b''], [''a'', ''b'', ''c'']])"
  by (simp add: mkdirAll_def mkdirAll_loop.simps posix_mkdir_def ENOENT_def EEXIST_def
      substr0_def Let_def)

text \<open>
  With the \<open>mkdir\<close> of POSIX every path that begins with the separator is refused, in
  every tree, and the tree is left as it is.
\<close>

theorem mkdirAll_posix_absolute_path:
  "mkdirAll sep (posix_mkdir sep) (sep # rest) dirs = Some (- 1, ENOENT, dirs)"
proof -
  have "mkdirAll_loop sep (posix_mkdir sep) (sep # rest) 0 0 dirs = Some (Some (- 1), ENOENT, dirs)"
    by (subst mkdirAll_loop.simps) (simp add: substr0_def posix_mkdir_def ENOENT_def EEXIST_def)
  then show ?thesis
    by (simp add: mkdirAll_def)
qed

end
